theory Spec2Isabelle
  imports Complex_Main "HOL-Library.Char_ord" "HOL-Library.List_Lexorder"
begin

section \<open>Data model\<close>

text \<open>
  The program is \<^verbatim>\<open>utils.py\<close>. Python strings are modelled as \<^typ>\<open>string\<close>, read as the
  UTF-8 encoding of the text: the order of \<^typ>\<open>char\<close> is the order of the byte values and
  the order of lists is lexicographic, and on UTF-8 this is the order of Python's string
  comparison (code point by code point, a proper prefix first).

  A Python \<^verbatim>\<open>dict\<close> keeps its keys in insertion order, and \<^verbatim>\<open>create_eng_to_rads\<close> and
  \<^verbatim>\<open>dict_to_tensors\<close> both iterate over one, so a dictionary is an association list in
  insertion order. The operations below are the ones the program uses.
\<close>

datatype error = KeyError | IndexError | ValueError | AssertionError | RuntimeError string

type_synonym ('k, 'v) dict = "('k \<times> 'v) list"

text \<open>\<^verbatim>\<open>d.keys()\<close> and \<^verbatim>\<open>d.values()\<close>, in insertion order.\<close>

definition dict_keys :: "('k, 'v) dict \<Rightarrow> 'k list" where
  "dict_keys d = map fst d"

definition dict_values :: "('k, 'v) dict \<Rightarrow> 'v list" where
  "dict_values d = map snd d"

text \<open>\<^verbatim>\<open>k in d\<close>.\<close>

definition dict_contains :: "('k, 'v) dict \<Rightarrow> 'k \<Rightarrow> bool" where
  "dict_contains d k = (map_of d k \<noteq> None)"

text \<open>\<^verbatim>\<open>d[k]\<close>, which raises \<^verbatim>\<open>KeyError\<close> on a missing key.\<close>

definition dict_get :: "('k, 'v) dict \<Rightarrow> 'k \<Rightarrow> error + 'v" where
  "dict_get d k = (case map_of d k of None \<Rightarrow> Inl KeyError | Some v \<Rightarrow> Inr v)"

text \<open>
  \<^verbatim>\<open>d[k] = v\<close>: an existing key keeps its position and takes the new value, a new key goes
  to the end.
\<close>

fun dict_set :: "('k, 'v) dict \<Rightarrow> 'k \<Rightarrow> 'v \<Rightarrow> ('k, 'v) dict" where
  "dict_set [] k v = [(k, v)]"
| "dict_set (p # d) k v = (if fst p = k then (k, v) # d else p # dict_set d k v)"

section \<open>create_eng_to_rads\<close>

text \<open>
  Lines 71 to 73, the loop over the radicals of one kanji:
  \<^verbatim>\<open>
  for rad in kanji_to_rads[kanji]:
      if rad not in eng_to_rads[eng_word]:
          eng_to_rads[eng_word].append(rad)
  \<close>
  The list stored under \<^verbatim>\<open>eng_word\<close> is appended to in place, which in the model is a
  store of the longer list under the same key.
\<close>

fun append_rads ::
  "'r list \<Rightarrow> 'w \<Rightarrow> ('w, 'r list) dict \<Rightarrow> error + ('w, 'r list) dict" where
  "append_rads [] eng_word eng_to_rads = Inr eng_to_rads"
| "append_rads (rad # rads) eng_word eng_to_rads =
     (case dict_get eng_to_rads eng_word of
        Inl e \<Rightarrow> Inl e
      | Inr cur \<Rightarrow>
          if rad \<notin> set cur
          then append_rads rads eng_word (dict_set eng_to_rads eng_word (cur @ [rad]))
          else append_rads rads eng_word eng_to_rads)"

text \<open>
  Lines 68 to 73, the loop over the kanji of one English word:
  \<^verbatim>\<open>
  for kanji in eng_to_kanji[eng_word]:
      if kanji in kanji_to_rads:
          for rad in kanji_to_rads[kanji]: ...
  \<close>
\<close>

fun walk_kanji ::
  "'k list \<Rightarrow> ('k, 'r list) dict \<Rightarrow> 'w \<Rightarrow> ('w, 'r list) dict \<Rightarrow> error + ('w, 'r list) dict" where
  "walk_kanji [] kanji_to_rads eng_word eng_to_rads = Inr eng_to_rads"
| "walk_kanji (kanji # ks) kanji_to_rads eng_word eng_to_rads =
     (if dict_contains kanji_to_rads kanji
      then (case dict_get kanji_to_rads kanji of
              Inl e \<Rightarrow> Inl e
            | Inr rads \<Rightarrow>
                (case append_rads rads eng_word eng_to_rads of
                   Inl e \<Rightarrow> Inl e
                 | Inr eng_to_rads' \<Rightarrow> walk_kanji ks kanji_to_rads eng_word eng_to_rads'))
      else walk_kanji ks kanji_to_rads eng_word eng_to_rads)"

text \<open>
  Lines 65 to 73, the loop over the English words:
  \<^verbatim>\<open>
  for eng_word in eng_to_kanji:
      eng_to_rads[eng_word] = []
      for kanji in eng_to_kanji[eng_word]: ...
  \<close>
\<close>

fun walk_words ::
  "'w list \<Rightarrow> ('k, 'r list) dict \<Rightarrow> ('w, 'k list) dict \<Rightarrow> ('w, 'r list) dict
     \<Rightarrow> error + ('w, 'r list) dict" where
  "walk_words [] kanji_to_rads eng_to_kanji eng_to_rads = Inr eng_to_rads"
| "walk_words (eng_word # ws) kanji_to_rads eng_to_kanji eng_to_rads =
     (case dict_get eng_to_kanji eng_word of
        Inl e \<Rightarrow> Inl e
      | Inr kanjis \<Rightarrow>
          (case walk_kanji kanjis kanji_to_rads eng_word (dict_set eng_to_rads eng_word []) of
             Inl e \<Rightarrow> Inl e
           | Inr eng_to_rads' \<Rightarrow> walk_words ws kanji_to_rads eng_to_kanji eng_to_rads'))"

text \<open>Lines 64 to 74: the result starts as the empty dictionary.\<close>

definition create_eng_to_rads ::
  "('k, 'r list) dict \<Rightarrow> ('w, 'k list) dict \<Rightarrow> error + ('w, 'r list) dict" where
  "create_eng_to_rads kanji_to_rads eng_to_kanji =
     walk_words (dict_keys eng_to_kanji) kanji_to_rads eng_to_kanji []"

section \<open>The label encoders\<close>

text \<open>
  \<^verbatim>\<open>dict_to_tensors\<close> delegates the encoding to two classes of scikit-learn, an external
  library whose code is not part of the repository. They are modelled here from the
  library's documented behaviour, for labels that are strings, with the default parameters
  the program uses (\<^verbatim>\<open>neg_label=0\<close>, \<^verbatim>\<open>pos_label=1\<close>, dense output).

  \<^verbatim>\<open>MultiLabelBinarizer\<close> keeps its \<^verbatim>\<open>classes_\<close> in an array of Python objects: the distinct
  labels in sorted order (\<^verbatim>\<open>numpy.unique\<close>), each string as it is.
\<close>

definition np_unique :: "string list \<Rightarrow> string list" where
  "np_unique labels = sort (remdups labels)"

text \<open>
  \<^verbatim>\<open>LabelBinarizer\<close> holds strings in numpy arrays of fixed-width strings. Such an array
  pads every element with NUL characters to the common width, and reading an element
  drops all its trailing NUL characters: a label that ends in NUL is read back without
  them.
\<close>

definition rstrip_nul :: "string \<Rightarrow> string" where
  "rstrip_nul s = rev (dropWhile (\<lambda>c. c = CHR 0x00) (rev s))"

definition np_asarray :: "string list \<Rightarrow> string list" where
  "np_asarray labels = map rstrip_nul labels"

text \<open>
  \<^verbatim>\<open>unique_labels(y)\<close> for a list \<open>y\<close>, the \<^verbatim>\<open>classes_\<close> of \<^verbatim>\<open>LabelBinarizer\<close>: the Python
  strings are made distinct and sorted (\<^verbatim>\<open>sorted(set(y))\<close>) and only then stored in an
  array, so two labels that differ in trailing NUL characters stay two classes that read
  the same.
\<close>

definition unique_labels :: "string list \<Rightarrow> string list" where
  "unique_labels y = np_asarray (sort (remdups y))"

text \<open>
  \<^verbatim>\<open>numpy.searchsorted(a, v)\<close> on a sorted array, with the default side: the leftmost
  position at which \<open>v\<close> can be inserted, which is the number of elements less than \<open>v\<close>.
\<close>

definition searchsorted :: "string list \<Rightarrow> string \<Rightarrow> nat" where
  "searchsorted a v = length (takeWhile (\<lambda>c. c < v) a)"

text \<open>
  \<^verbatim>\<open>label_binarize(y, classes=classes_)\<close>: \<open>y\<close> becomes an array, and row \<open>i\<close> of the
  indicator matrix has a 1 in the column that \<^verbatim>\<open>searchsorted\<close> finds for \<open>y[i]\<close> among the
  classes (which come sorted from \<^verbatim>\<open>unique_labels\<close>, so the library's reordering of the
  columns does not apply). The library treats at most two classes as a binary target:
  with one class the result is a single column of zeros, with two classes it is the last
  column of the indicator matrix alone ("binary targets transform to a column vector").
  Only from three classes on is the full matrix returned.
\<close>

definition label_binarize :: "string list \<Rightarrow> string list \<Rightarrow> int list list" where
  "label_binarize y classes =
     (let n_classes = length classes;
          Y = map (\<lambda>label. map (\<lambda>j. if j = searchsorted classes label then 1 else 0)
                              [0..<n_classes])
                (np_asarray y)
      in if n_classes = 1 then map (\<lambda>label. [0]) y
         else if n_classes = 2 then map (\<lambda>row. [last row]) Y
         else Y)"

text \<open>
  \<^verbatim>\<open>LabelBinarizer().fit_transform(y)\<close>: fitting raises \<^verbatim>\<open>ValueError\<close> on a target with no
  samples. The result is the pair of \<^verbatim>\<open>classes_\<close> and the encoded matrix.
\<close>

definition LabelBinarizer_fit_transform :: "string list \<Rightarrow> error + (string list \<times> int list list)" where
  "LabelBinarizer_fit_transform y =
     (if y = [] then Inl ValueError
      else let classes = unique_labels y in Inr (classes, label_binarize y classes))"

text \<open>
  \<^verbatim>\<open>MultiLabelBinarizer().fit_transform(y)\<close>: the classes are the distinct labels of all
  rows, sorted; row \<open>i\<close> has a 1 in the column of every label that occurs in \<open>y[i]\<close>.
\<close>

definition MultiLabelBinarizer_fit_transform :: "string list list \<Rightarrow> string list \<times> int list list" where
  "MultiLabelBinarizer_fit_transform y =
     (let classes = np_unique (concat y)
      in (classes, map (\<lambda>labels. map (\<lambda>c. if c \<in> set labels then 1 else 0) classes) y))"

section \<open>dict_to_tensors\<close>

text \<open>
  A two-dimensional tensor is the list of its rows. \<^verbatim>\<open>torch.tensor(a, dtype=torch.float32)\<close>
  converts the integers 0 and 1 of the encoded matrix to the floating point numbers 0.0 and
  1.0, which are exact; \<^verbatim>\<open>t.size(0)\<close> is the number of rows.
\<close>

type_synonym tensor = "real list list"

definition torch_tensor :: "int list list \<Rightarrow> tensor" where
  "torch_tensor a = map (map real_of_int) a"

definition size0 :: "tensor \<Rightarrow> nat" where
  "size0 t = length t"

text \<open>
  Lines 51 and 52:
  \<^verbatim>\<open>
  assert eng_tensor.size(0) == rad_tensor.size(0)
  return eng_tensor, rad_tensor, encoder_eng.classes_, encoder_rad.classes_
  \<close>
\<close>

definition assert_and_return ::
  "tensor \<Rightarrow> tensor \<Rightarrow> string list \<Rightarrow> string list
     \<Rightarrow> error + (tensor \<times> tensor \<times> string list \<times> string list)" where
  "assert_and_return eng_tensor rad_tensor eng_classes rad_classes =
     (if size0 eng_tensor = size0 rad_tensor
      then Inr (eng_tensor, rad_tensor, eng_classes, rad_classes)
      else Inl AssertionError)"

text \<open>
  Lines 45 to 52, with the two \<^verbatim>\<open>fit_transform\<close> of the library as parameters: what the
  code of the repository does with whatever the encoders return. The English encoder runs
  first, so its error comes first.
\<close>

definition dict_to_tensors_with ::
  "(string list \<Rightarrow> error + (string list \<times> int list list))
     \<Rightarrow> (string list list \<Rightarrow> string list \<times> int list list)
     \<Rightarrow> (string, string list) dict
     \<Rightarrow> error + (tensor \<times> tensor \<times> string list \<times> string list)" where
  "dict_to_tensors_with fit_transform_eng fit_transform_rad eng_to_rad =
     (case fit_transform_eng (dict_keys eng_to_rad) of
        Inl e \<Rightarrow> Inl e
      | Inr (eng_classes, encoded_eng) \<Rightarrow>
          (case fit_transform_rad (dict_values eng_to_rad) of
             (rad_classes, encoded_rad) \<Rightarrow>
               assert_and_return (torch_tensor encoded_eng) (torch_tensor encoded_rad)
                 eng_classes rad_classes))"

text \<open>\<^verbatim>\<open>dict_to_tensors\<close> as it runs, on scikit-learn's encoders.\<close>

definition dict_to_tensors ::
  "(string, string list) dict \<Rightarrow> error + (tensor \<times> tensor \<times> string list \<times> string list)" where
  "dict_to_tensors eng_to_rad =
     dict_to_tensors_with LabelBinarizer_fit_transform MultiLabelBinarizer_fit_transform
       eng_to_rad"

section \<open>get_tensor_from_word\<close>

text \<open>
  Line 17, \<^verbatim>\<open>{vocab: idx for idx, vocab in enumerate(eng_vocab)}\<close>: the entries are stored
  in the order of the vocabulary, a later index replacing an earlier one of the same word.
\<close>

definition word_to_idx_dict :: "string list \<Rightarrow> (string, nat) dict" where
  "word_to_idx_dict eng_vocab =
     fold (\<lambda>(idx, vocab) d. dict_set d vocab idx) (enumerate 0 eng_vocab) []"

text \<open>
  Lines 21 to 24, the scan of the rows. \<^verbatim>\<open>tens[idx]\<close> raises \<^verbatim>\<open>IndexError\<close> when the row
  is too short.
\<close>

fun scan_tensors :: "nat \<Rightarrow> tensor \<Rightarrow> error + real list" where
  "scan_tensors idx [] = Inl (RuntimeError ''Corresponding tensor for word was not found!'')"
| "scan_tensors idx (tens # rest) =
     (if idx < length tens
      then (if tens ! idx = 1 then Inr tens else scan_tensors idx rest)
      else Inl IndexError)"

definition get_tensor_from_word :: "string \<Rightarrow> tensor \<Rightarrow> string list \<Rightarrow> error + real list" where
  "get_tensor_from_word word eng_tens eng_vocab =
     (let d = word_to_idx_dict eng_vocab
      in if \<not> dict_contains d word then Inl (RuntimeError ''Word is not in vocabulary!'')
         else (case dict_get d word of
                 Inl e \<Rightarrow> Inl e
               | Inr idx \<Rightarrow> scan_tensors idx eng_tens))"

section \<open>Auxiliary functions of the proofs\<close>

text \<open>
  What the loop of lines 71 to 73 computes, as a function of the list so far and the
  radicals offered to it: each radical is appended unless the list has it already.
\<close>

fun first_seen :: "'a list \<Rightarrow> 'a list \<Rightarrow> 'a list" where
  "first_seen acc [] = acc"
| "first_seen acc (x # xs) = first_seen (if x \<in> set acc then acc else acc @ [x]) xs"

text \<open>
  The radicals of the kanji of a sequence that have an entry in \<^verbatim>\<open>kanji_to_rads\<close>, in the
  order of the sequence, with repetitions.
\<close>

definition present_rads :: "('k, 'r list) dict \<Rightarrow> 'k list \<Rightarrow> 'r list" where
  "present_rads kanji_to_rads ks = concat (List.map_filter (map_of kanji_to_rads) ks)"

text \<open>The list a word ends with: the first occurrences of its radicals, in order.\<close>

definition lookup_rads :: "('k, 'r list) dict \<Rightarrow> ('w, 'k list) dict \<Rightarrow> 'w \<Rightarrow> 'r list" where
  "lookup_rads kanji_to_rads eng_to_kanji w =
     (case map_of eng_to_kanji w of
        None \<Rightarrow> []
      | Some ks \<Rightarrow> rev (remdups (rev (present_rads kanji_to_rads ks))))"

text \<open>A string that ends in a NUL character.\<close>

definition ends_with_nul :: "string \<Rightarrow> bool" where
  "ends_with_nul s = (s \<noteq> [] \<and> last s = CHR 0x00)"

text \<open>Strictly ascending in the lexicographic order of strings, characters by their codes.\<close>

definition strictly_ascending :: "string list \<Rightarrow> bool" where
  "strictly_ascending xs =
     sorted_wrt (\<lambda>a b. (a, b) \<in> lexord {(c, c'). (of_char c :: nat) < of_char c'}) xs"

section \<open>Dictionaries\<close>

lemma map_of_dict_set: "map_of (dict_set d k v) = (map_of d)(k \<mapsto> v)"
  by (induction d) (auto simp: fun_eq_iff)

lemma dict_set_twice: "dict_set (dict_set d k v) k v' = dict_set d k v'"
  by (induction d) auto

lemma dict_set_same: "map_of d k = Some v \<Longrightarrow> dict_set d k v = d"
  by (induction d) (auto split: if_splits)

lemma keys_dict_set:
  "map fst (dict_set d k v) = (if k \<in> set (map fst d) then map fst d else map fst d @ [k])"
  by (induction d) auto

lemma first_seen_append: "first_seen acc (xs @ ys) = first_seen (first_seen acc xs) ys"
  by (induction xs arbitrary: acc) auto

lemma remdups_drop_seen: "x \<in> set ys \<Longrightarrow> remdups (zs @ x # ys) = remdups (zs @ ys)"
  by (induction zs) (auto simp: insert_absorb)

lemma first_seen_remdups:
  "distinct acc \<Longrightarrow> first_seen acc xs = rev (remdups (rev (acc @ xs)))"
proof (induction xs arbitrary: acc)
  case Nil
  then show ?case by (simp add: distinct_remdups_id)
next
  case (Cons x xs)
  show ?case
  proof (cases "x \<in> set acc")
    case True
    then have "remdups (rev xs @ x # rev acc) = remdups (rev xs @ rev acc)"
      by (intro remdups_drop_seen) simp
    with True Cons show ?thesis by simp
  next
    case False
    with Cons.prems have "distinct (acc @ [x])" by simp
    from Cons.IH [OF this] False show ?thesis by simp
  qed
qed

lemma append_rads_eq:
  "map_of d w = Some cur \<Longrightarrow> append_rads rads w d = Inr (dict_set d w (first_seen cur rads))"
proof (induction rads arbitrary: d cur)
  case Nil
  then show ?case by (simp add: dict_set_same)
next
  case (Cons rad rads)
  have get: "dict_get d w = Inr cur" using Cons.prems by (simp add: dict_get_def)
  show ?case
  proof (cases "rad \<in> set cur")
    case True
    with get Cons show ?thesis by simp
  next
    case False
    have "map_of (dict_set d w (cur @ [rad])) w = Some (cur @ [rad])"
      by (simp add: map_of_dict_set)
    from Cons.IH [OF this] get False show ?thesis by (simp add: dict_set_twice)
  qed
qed

lemma present_rads_Cons:
  "present_rads k2r (kanji # ks) =
     (case map_of k2r kanji of None \<Rightarrow> [] | Some rads \<Rightarrow> rads) @ present_rads k2r ks"
  by (simp add: present_rads_def List.map_filter_simps split: option.splits)

lemma walk_kanji_eq:
  "map_of d w = Some cur \<Longrightarrow>
   walk_kanji ks k2r w d = Inr (dict_set d w (first_seen cur (present_rads k2r ks)))"
proof (induction ks arbitrary: d cur)
  case Nil
  then show ?case by (simp add: present_rads_def List.map_filter_simps dict_set_same)
next
  case (Cons kanji ks)
  show ?case
  proof (cases "map_of k2r kanji")
    case None
    with Cons show ?thesis
      by (simp add: dict_contains_def present_rads_Cons)
  next
    case (Some rads)
    have step: "append_rads rads w d = Inr (dict_set d w (first_seen cur rads))"
      using Cons.prems by (rule append_rads_eq)
    have "map_of (dict_set d w (first_seen cur rads)) w = Some (first_seen cur rads)"
      by (simp add: map_of_dict_set)
    from Cons.IH [OF this] Some step show ?thesis
      by (simp add: dict_contains_def dict_get_def present_rads_Cons first_seen_append
          dict_set_twice)
  qed
qed


lemma walk_words_eq:
  "set ws \<subseteq> set (map fst e2k) \<Longrightarrow>
   walk_words ws k2r e2k d = Inr (fold (\<lambda>w acc. dict_set acc w (lookup_rads k2r e2k w)) ws d)"
proof (induction ws arbitrary: d)
  case Nil
  then show ?case by simp
next
  case (Cons w ws)
  from Cons.prems obtain ks where ks: "map_of e2k w = Some ks"
    by (cases "map_of e2k w") (auto simp: map_of_eq_None_iff)
  have "map_of (dict_set d w []) w = Some []"
    by (simp add: map_of_dict_set)
  then have "walk_kanji ks k2r w (dict_set d w []) =
      Inr (dict_set d w (first_seen [] (present_rads k2r ks)))"
    by (simp add: walk_kanji_eq dict_set_twice)
  moreover have "first_seen [] (present_rads k2r ks) = lookup_rads k2r e2k w"
    using ks by (simp add: lookup_rads_def first_seen_remdups)
  moreover have "set ws \<subseteq> set (map fst e2k)" using Cons.prems by simp
  ultimately show ?case using ks Cons.IH by (simp add: dict_get_def)
qed

lemma create_eng_to_rads_eq:
  "create_eng_to_rads k2r e2k =
     Inr (fold (\<lambda>w acc. dict_set acc w (lookup_rads k2r e2k w)) (dict_keys e2k) [])"
  unfolding create_eng_to_rads_def by (rule walk_words_eq) (simp add: dict_keys_def)

lemma map_of_fold_dict_set:
  "map_of (fold (\<lambda>w acc. dict_set acc w (f w)) ws d) x =
     (if x \<in> set ws then Some (f x) else map_of d x)"
  by (induction ws arbitrary: d) (auto simp: map_of_dict_set)

lemma keyset_dict_set: "fst ` set (dict_set d k v) = insert k (fst ` set d)"
  by (induction d) auto

lemma keys_fold_dict_set:
  "fst ` set (fold (\<lambda>w acc. dict_set acc w (f w)) ws d) = fst ` set d \<union> set ws"
  by (induction ws arbitrary: d) (simp_all add: keyset_dict_set)

lemma distinct_fold_dict_set:
  "distinct (map fst d) \<Longrightarrow> distinct (map fst (fold (\<lambda>w acc. dict_set acc w (f w)) ws d))"
  by (induction ws arbitrary: d) (auto simp: keys_dict_set)

lemma create_eng_to_rads_lookup:
  assumes "create_eng_to_rads k2r e2k = Inr r"
  shows "map_of r w = map_option (\<lambda>ks. rev (remdups (rev (present_rads k2r ks)))) (map_of e2k w)"
proof -
  have r: "r = fold (\<lambda>w acc. dict_set acc w (lookup_rads k2r e2k w)) (dict_keys e2k) []"
    using assms by (simp add: create_eng_to_rads_eq)
  show ?thesis
  proof (cases "map_of e2k w")
    case None
    then have "w \<notin> set (dict_keys e2k)"
      by (simp add: dict_keys_def map_of_eq_None_iff)
    with None show ?thesis by (simp add: r map_of_fold_dict_set)
  next
    case (Some ks)
    then have "w \<in> set (dict_keys e2k)"
      by (auto simp: dict_keys_def dest: map_of_SomeD intro: rev_image_eqI)
    with Some show ?thesis by (simp add: r map_of_fold_dict_set lookup_rads_def)
  qed
qed

lemma create_eng_to_rads_keys:
  assumes "create_eng_to_rads k2r e2k = Inr r"
  shows "set (dict_keys r) = set (dict_keys e2k)" and "distinct (dict_keys r)"
proof -
  have r: "r = fold (\<lambda>w acc. dict_set acc w (lookup_rads k2r e2k w)) (dict_keys e2k) []"
    using assms by (simp add: create_eng_to_rads_eq)
  show "set (dict_keys r) = set (dict_keys e2k)"
    unfolding r by (simp add: dict_keys_def keys_fold_dict_set)
  show "distinct (dict_keys r)"
    unfolding r dict_keys_def by (rule distinct_fold_dict_set) simp
qed

lemma present_rads_filter:
  "present_rads k2r (filter (dict_contains k2r) ks) = present_rads k2r ks"
  by (induction ks) (auto simp: present_rads_Cons dict_contains_def split: option.splits)

section \<open>Claims about create_eng_to_rads\<close>

text \<open>The definitions to unfold when a concrete call is evaluated.\<close>

lemmas eval_defs = create_eng_to_rads_def dict_keys_def dict_get_def dict_contains_def

text \<open>
  Claim C1. For every pair of input dictionaries \<^verbatim>\<open>create_eng_to_rads\<close> returns a dictionary
  in which every English word of \<^verbatim>\<open>eng_to_kanji\<close> has the radicals of its kanji that are
  present in \<^verbatim>\<open>kanji_to_rads\<close>, walked in the order of the kanji sequence, each radical kept
  at its first occurrence only (\<open>rev (remdups (rev xs))\<close> keeps the first occurrence of
  every element of \<open>xs\<close>, in order). In particular the two kanji for "tree" of the word
  "forest" give the list tree, wood. The kanji are written as their UTF-8 bytes.
\<close>

theorem C1_first_seen_order:
  "(\<exists>r. create_eng_to_rads kanji_to_rads eng_to_kanji = Inr r \<and>
        (\<forall>w ks. map_of eng_to_kanji w = Some ks \<longrightarrow>
           map_of r w =
             Some (rev (remdups (rev (concat (List.map_filter (map_of kanji_to_rads) ks)))))))
   \<and> create_eng_to_rads
         [([CHR 0xE7, CHR 0x81, CHR 0xAB], [''fire'']),
          ([CHR 0xE6, CHR 0x9C, CHR 0xA8], [''tree'', ''wood''])]
         [(''forest'', [[CHR 0xE6, CHR 0x9C, CHR 0xA8], [CHR 0xE6, CHR 0x9C, CHR 0xA8]])]
       = Inr [(''forest'', [''tree'', ''wood''])]"
proof (intro conjI)
  obtain r where r: "create_eng_to_rads kanji_to_rads eng_to_kanji = Inr r"
    by (simp add: create_eng_to_rads_eq)
  have "\<forall>w ks. map_of eng_to_kanji w = Some ks \<longrightarrow>
      map_of r w = Some (rev (remdups (rev (concat (List.map_filter (map_of kanji_to_rads) ks)))))"
    by (simp add: create_eng_to_rads_lookup [OF r] present_rads_def)
  with r show "\<exists>r. create_eng_to_rads kanji_to_rads eng_to_kanji = Inr r \<and>
        (\<forall>w ks. map_of eng_to_kanji w = Some ks \<longrightarrow>
           map_of r w =
             Some (rev (remdups (rev (concat (List.map_filter (map_of kanji_to_rads) ks))))))"
    by blast
next
  show "create_eng_to_rads
         [([CHR 0xE7, CHR 0x81, CHR 0xAB], [''fire'']),
          ([CHR 0xE6, CHR 0x9C, CHR 0xA8], [''tree'', ''wood''])]
         [(''forest'', [[CHR 0xE6, CHR 0x9C, CHR 0xA8], [CHR 0xE6, CHR 0x9C, CHR 0xA8]])]
       = Inr [(''forest'', [''tree'', ''wood''])]"
    by (simp add: eval_defs)
qed

text \<open>
  The theorem at a word with a kanji that repeats a radical and a kanji without an entry.
\<close>

theorem C1_first_seen_order_witness:
  "\<exists>r. create_eng_to_rads
          [(''ka'', [''sun'']), (''kb'', [''sun'', ''moon''])]
          [(''bright'', [''kb'', ''ka'', ''kc''])] = Inr r
       \<and> map_of r ''bright'' = Some [''sun'', ''moon'']"
proof -
  from C1_first_seen_order
    [of "[(''ka'', [''sun'']), (''kb'', [''sun'', ''moon''])]"
        "[(''bright'', [''kb'', ''ka'', ''kc''])]"]
  obtain r where r: "create_eng_to_rads
          [(''ka'', [''sun'']), (''kb'', [''sun'', ''moon''])]
          [(''bright'', [''kb'', ''ka'', ''kc''])] = Inr r"
    and all: "\<forall>w ks. map_of [(''bright'', [''kb'', ''ka'', ''kc''])] w = Some ks \<longrightarrow>
           map_of r w = Some (rev (remdups (rev (concat
             (List.map_filter (map_of [(''ka'', [''sun'']), (''kb'', [''sun'', ''moon''])]) ks)))))"
    by blast
  have "map_of [(''bright'', [''kb'', ''ka'', ''kc''])] ''bright'' = Some [''kb'', ''ka'', ''kc'']"
    by simp
  with all have "map_of r ''bright'' = Some (rev (remdups (rev (concat
             (List.map_filter (map_of [(''ka'', [''sun'']), (''kb'', [''sun'', ''moon''])])
                [''kb'', ''ka'', ''kc''])))))"
    by blast
  then have "map_of r ''bright'' = Some [''sun'', ''moon'']"
    by (simp add: List.map_filter_simps)
  with r show ?thesis by blast
qed

text \<open>
  Claim C2. For every pair of input dictionaries the result of \<^verbatim>\<open>create_eng_to_rads\<close> has
  exactly the keys of \<^verbatim>\<open>eng_to_kanji\<close> (each once), and a word all of whose kanji are absent
  from \<^verbatim>\<open>kanji_to_rads\<close> is mapped to the empty list, not left out; for example the word
  "unknown" with the single absent kanji "?" yields the dictionary of "unknown" to the
  empty list.
\<close>

theorem C2_same_keys:
  "(\<exists>r. create_eng_to_rads kanji_to_rads eng_to_kanji = Inr r \<and>
        set (dict_keys r) = set (dict_keys eng_to_kanji) \<and>
        distinct (dict_keys r) \<and>
        (\<forall>w ks. map_of eng_to_kanji w = Some ks \<and> (\<forall>kanji\<in>set ks. \<not> dict_contains kanji_to_rads kanji)
           \<longrightarrow> map_of r w = Some []))
   \<and> create_eng_to_rads ([] :: (string, string list) dict) [(''unknown'', [''?''])]
       = Inr [(''unknown'', [])]"
proof (intro conjI)
  obtain r where r: "create_eng_to_rads kanji_to_rads eng_to_kanji = Inr r"
    by (simp add: create_eng_to_rads_eq)
  have absent: "present_rads kanji_to_rads ks = []"
    if "\<forall>kanji\<in>set ks. \<not> dict_contains kanji_to_rads kanji" for ks
    using that by (induction ks) (simp_all add: present_rads_Cons dict_contains_def present_rads_def)
  have "\<forall>w ks. map_of eng_to_kanji w = Some ks \<and> (\<forall>kanji\<in>set ks. \<not> dict_contains kanji_to_rads kanji)
           \<longrightarrow> map_of r w = Some []"
    by (simp add: create_eng_to_rads_lookup [OF r] absent)
  with r create_eng_to_rads_keys [OF r]
  show "\<exists>r. create_eng_to_rads kanji_to_rads eng_to_kanji = Inr r \<and>
        set (dict_keys r) = set (dict_keys eng_to_kanji) \<and>
        distinct (dict_keys r) \<and>
        (\<forall>w ks. map_of eng_to_kanji w = Some ks \<and> (\<forall>kanji\<in>set ks. \<not> dict_contains kanji_to_rads kanji)
           \<longrightarrow> map_of r w = Some [])"
    by blast
next
  show "create_eng_to_rads ([] :: (string, string list) dict) [(''unknown'', [''?''])]
       = Inr [(''unknown'', [])]"
    by (simp add: eval_defs)
qed

text \<open>The theorem at a dictionary with one known and one unknown word.\<close>

theorem C2_same_keys_witness:
  "\<exists>r. create_eng_to_rads [(''ka'', [''sun''])]
          [(''bright'', [''ka'']), (''unknown'', [''?'', ''!''])] = Inr r
       \<and> set (dict_keys r) = {''bright'', ''unknown''}
       \<and> map_of r ''unknown'' = Some []"
proof -
  from C2_same_keys
    [of "[(''ka'', [''sun''])]" "[(''bright'', [''ka'']), (''unknown'', [''?'', ''!''])]"]
  obtain r where r: "create_eng_to_rads [(''ka'', [''sun''])]
          [(''bright'', [''ka'']), (''unknown'', [''?'', ''!''])] = Inr r"
    and keys: "set (dict_keys r) = set (dict_keys [(''bright'', [''ka'']), (''unknown'', [''?'', ''!''])])"
    and all: "\<forall>w ks. map_of [(''bright'', [''ka'']), (''unknown'', [''?'', ''!''])] w = Some ks \<and>
        (\<forall>kanji\<in>set ks. \<not> dict_contains [(''ka'', [''sun''])] kanji) \<longrightarrow> map_of r w = Some []"
    by blast
  have "map_of [(''bright'', [''ka'']), (''unknown'', [''?'', ''!''])] ''unknown'' = Some [''?'', ''!'']
      \<and> (\<forall>kanji\<in>set [''?'', ''!'']. \<not> dict_contains [(''ka'', [''sun''])] kanji)"
    by (simp add: dict_contains_def)
  with all have "map_of r ''unknown'' = Some []" by blast
  moreover from keys have "set (dict_keys r) = {''bright'', ''unknown''}"
    by (simp add: dict_keys_def)
  ultimately show ?thesis using r by blast
qed

text \<open>
  Claim C3. For every pair of input dictionaries and every English word, the radical list
  that \<^verbatim>\<open>create_eng_to_rads\<close> produces for the word has no duplicate value.
\<close>

theorem C3_no_duplicates:
  "\<exists>r. create_eng_to_rads kanji_to_rads eng_to_kanji = Inr r \<and>
       (\<forall>(w, rads)\<in>set r. distinct rads)"
proof -
  obtain r where r: "create_eng_to_rads kanji_to_rads eng_to_kanji = Inr r"
    by (simp add: create_eng_to_rads_eq)
  have "distinct rads" if "(w, rads) \<in> set r" for w rads
  proof -
    have "distinct (map fst r)"
      using create_eng_to_rads_keys(2) [OF r] by (simp add: dict_keys_def)
    then have "map_of r w = Some rads" using that by (rule map_of_is_SomeI)
    then obtain ks where "rads = rev (remdups (rev (present_rads kanji_to_rads ks)))"
      by (auto simp: create_eng_to_rads_lookup [OF r])
    then show ?thesis by simp
  qed
  with r show ?thesis by blast
qed

text \<open>
  The theorem at a word whose kanji repeat and whose first kanji lists a radical twice.
\<close>

theorem C3_no_duplicates_witness:
  "\<exists>r. create_eng_to_rads
          [(''ka'', [''sun'', ''sun'']), (''kb'', [''sun'', ''moon''])]
          [(''bright'', [''ka'', ''kb'', ''ka''])] = Inr r
       \<and> (''bright'', [''sun'', ''moon'']) \<in> set r
       \<and> distinct [''sun'', ''moon'']"
proof -
  have ev: "create_eng_to_rads
          [(''ka'', [''sun'', ''sun'']), (''kb'', [''sun'', ''moon''])]
          [(''bright'', [''ka'', ''kb'', ''ka''])] = Inr [(''bright'', [''sun'', ''moon''])]"
    by (simp add: eval_defs)
  from C3_no_duplicates
    [of "[(''ka'', [''sun'', ''sun'']), (''kb'', [''sun'', ''moon''])]"
        "[(''bright'', [''ka'', ''kb'', ''ka''])]"]
  obtain r where r: "create_eng_to_rads
          [(''ka'', [''sun'', ''sun'']), (''kb'', [''sun'', ''moon''])]
          [(''bright'', [''ka'', ''kb'', ''ka''])] = Inr r"
    and all: "\<forall>(w, rads)\<in>set r. distinct rads"
    by blast
  from r ev have mem: "(''bright'', [''sun'', ''moon'']) \<in> set r" by auto
  with all have "distinct [''sun'', ''moon'']" by blast
  with r mem show ?thesis by blast
qed

text \<open>
  Claim C9. For every pair of input dictionaries \<^verbatim>\<open>create_eng_to_rads\<close> returns a
  dictionary and raises no error, and a kanji absent from \<^verbatim>\<open>kanji_to_rads\<close> contributes
  nothing: the result is the one obtained after removing the absent kanji from every
  sequence.
\<close>

theorem C9_absent_kanji_skipped:
  "\<exists>r. create_eng_to_rads kanji_to_rads eng_to_kanji = Inr r \<and>
       create_eng_to_rads kanji_to_rads
         (map (\<lambda>(w, ks). (w, filter (dict_contains kanji_to_rads) ks)) eng_to_kanji) = Inr r"
proof -
  let ?e = "map (\<lambda>(w, ks). (w, filter (dict_contains kanji_to_rads) ks)) eng_to_kanji"
  have keys: "dict_keys ?e = dict_keys eng_to_kanji"
    by (simp add: dict_keys_def case_prod_unfold comp_def)
  have "map_of ?e w = map_option (filter (dict_contains kanji_to_rads)) (map_of eng_to_kanji w)" for w
    by (induction eng_to_kanji) auto
  then have "lookup_rads kanji_to_rads ?e = lookup_rads kanji_to_rads eng_to_kanji"
    by (auto simp: lookup_rads_def fun_eq_iff present_rads_filter split: option.splits)
  with keys show ?thesis by (simp add: create_eng_to_rads_eq)
qed

section \<open>Claims about get_tensor_from_word\<close>

lemma keyset_fold_enumerate:
  "fst ` set (fold (\<lambda>(idx, vocab) d. dict_set d vocab idx) xs d) = fst ` set d \<union> snd ` set xs"
proof (induction xs arbitrary: d)
  case Nil
  then show ?case by simp
next
  case (Cons p xs)
  obtain idx vocab where p: "p = (idx, vocab)" by (cases p)
  show ?case by (simp add: Cons.IH p keyset_dict_set)
qed

lemma keyset_word_to_idx_dict: "fst ` set (word_to_idx_dict eng_vocab) = set eng_vocab"
proof -
  have "snd ` set (enumerate 0 eng_vocab) = set (map snd (enumerate 0 eng_vocab))"
    by (simp only: set_map)
  then have "snd ` set (enumerate 0 eng_vocab) = set eng_vocab"
    by (simp only: map_snd_enumerate)
  then show ?thesis
    by (simp add: word_to_idx_dict_def keyset_fold_enumerate)
qed

text \<open>
  Claim C7. For every word, tensor and vocabulary, if the word is not an element of the
  vocabulary then \<^verbatim>\<open>get_tensor_from_word\<close> raises the error "Word is not in vocabulary!"
  and returns no vector. The property needs no assumption on the vocabulary, so it holds
  for the duplicate-free vocabularies of the claim.
\<close>

theorem C7_word_not_in_vocabulary:
  "word \<notin> set eng_vocab \<Longrightarrow>
   get_tensor_from_word word eng_tens eng_vocab = Inl (RuntimeError ''Word is not in vocabulary!'')"
proof -
  assume "word \<notin> set eng_vocab"
  then have "word \<notin> fst ` set (word_to_idx_dict eng_vocab)"
    by (simp only: keyset_word_to_idx_dict not_False_eq_True)
  then have "map_of (word_to_idx_dict eng_vocab) word = None"
    by (simp add: map_of_eq_None_iff)
  then show ?thesis
    by (simp add: get_tensor_from_word_def dict_contains_def)
qed

text \<open>The theorem at a word missing from a vocabulary of two words.\<close>

theorem C7_word_not_in_vocabulary_witness:
  "''dog'' \<notin> set [''cat'', ''cow''] \<and>
   get_tensor_from_word ''dog'' [[1, 0], [0, 1]] [''cat'', ''cow'']
     = Inl (RuntimeError ''Word is not in vocabulary!'')"
  using C7_word_not_in_vocabulary [of "''dog''" "[''cat'', ''cow'']" "[[1, 0], [0, 1]]"]
  by simp

section \<open>Claims about dict_to_tensors\<close>

lemma np_unique_props:
  "sorted (np_unique xs)" "distinct (np_unique xs)" "set (np_unique xs) = set xs"
  by (simp_all add: np_unique_def)

lemma rstrip_nul_id: "\<not> ends_with_nul s \<Longrightarrow> rstrip_nul s = s"
proof (cases "s = []")
  case True
  then show ?thesis by (simp add: rstrip_nul_def)
next
  case False
  assume "\<not> ends_with_nul s"
  with False have "hd (rev s) \<noteq> CHR 0x00"
    by (simp add: ends_with_nul_def hd_rev)
  then have "dropWhile (\<lambda>c. c = CHR 0x00) (rev s) = rev s"
    by (simp add: dropWhile_eq_self_iff)
  then show ?thesis by (simp add: rstrip_nul_def)
qed

lemma unique_labels_general:
  "unique_labels y = map rstrip_nul (sorted_list_of_set (set y))"
  by (simp add: unique_labels_def np_asarray_def sorted_list_of_set_sort_remdups)

lemma unique_labels_no_nul:
  assumes "\<forall>k\<in>set y. \<not> ends_with_nul k"
  shows "unique_labels y = sort (remdups y)"
proof -
  have "map rstrip_nul (sort (remdups y)) = sort (remdups y)"
    using assms by (intro map_idI rstrip_nul_id) simp
  then show ?thesis by (simp add: unique_labels_def np_asarray_def)
qed

lemma np_asarray_no_nul: "\<forall>k\<in>set y. \<not> ends_with_nul k \<Longrightarrow> np_asarray y = y"
  unfolding np_asarray_def by (intro map_idI rstrip_nul_id) simp

lemma length_label_binarize: "length (label_binarize y classes) = length y"
  by (simp add: label_binarize_def Let_def np_asarray_def)

lemma dict_to_tensors_eq:
  "d \<noteq> [] \<Longrightarrow>
   dict_to_tensors d =
     Inr (torch_tensor (label_binarize (dict_keys d) (unique_labels (dict_keys d))),
          torch_tensor (map (\<lambda>labels. map (\<lambda>c. if c \<in> set labels then 1 else 0)
                          (np_unique (concat (dict_values d)))) (dict_values d)),
          unique_labels (dict_keys d),
          np_unique (concat (dict_values d)))"
  by (simp add: dict_to_tensors_def dict_to_tensors_with_def LabelBinarizer_fit_transform_def
      MultiLabelBinarizer_fit_transform_def assert_and_return_def size0_def torch_tensor_def
      length_label_binarize dict_keys_def dict_values_def Let_def)


lemma strictly_ascending_iff: "strictly_ascending xs \<longleftrightarrow> sorted xs \<and> distinct xs"
proof -
  have "(<) = (\<lambda>a b :: string. (a, b) \<in> lexord {(c, c'). (of_char c :: nat) < of_char c'})"
    by (simp add: fun_eq_iff list_less_def less_char_def)
  then have "strictly_ascending xs \<longleftrightarrow> sorted_wrt (<) xs"
    by (simp add: strictly_ascending_def)
  then show ?thesis by (simp add: strict_sorted_iff)
qed

text \<open>
  The classes of \<^verbatim>\<open>LabelBinarizer\<close> are sorted also after the trailing NUL characters are
  dropped, since NUL is the least character: \<^verbatim>\<open>label_binarize\<close> finds them in order.
\<close>

lemma NUL_least: "CHR 0x00 \<le> (c :: char)"
  by (simp add: less_eq_char_def)

lemma rstrip_nul_Cons:
  "rstrip_nul (c # s) = (if c = CHR 0x00 \<and> rstrip_nul s = [] then [] else c # rstrip_nul s)"
  by (simp add: rstrip_nul_def dropWhile_append)

lemma rstrip_nul_mono: "x \<le> y \<Longrightarrow> rstrip_nul x \<le> rstrip_nul y"
proof (induction x arbitrary: y)
  case Nil
  then show ?case by (simp add: rstrip_nul_def)
next
  case (Cons a xs)
  then obtain b ys where y: "y = b # ys" by (cases y) auto
  with Cons.prems have ab: "a < b \<or> a = b \<and> xs \<le> ys" by auto
  show ?case
  proof (cases "a < b")
    case True
    then have "b \<noteq> CHR 0x00" using NUL_least [of a] by auto
    with True show ?thesis by (simp add: y rstrip_nul_Cons)
  next
    case False
    with ab have eq: "a = b" and le: "xs \<le> ys" by auto
    from Cons.IH [OF le] have "rstrip_nul xs \<le> rstrip_nul ys" .
    then show ?thesis
      by (auto simp: y eq rstrip_nul_Cons)
  qed
qed

lemma sorted_unique_labels: "sorted (unique_labels y)"
proof -
  have "sorted (sort (remdups y))" by simp
  then have "sorted_wrt (\<lambda>a b. rstrip_nul a \<le> rstrip_nul b) (sort (remdups y))"
    by (rule sorted_wrt_mono_rel [rotated]) (simp add: rstrip_nul_mono)
  then show ?thesis
    by (simp add: unique_labels_def np_asarray_def sorted_map)
qed

lemma searchsorted_nth:
  "sorted cs \<Longrightarrow> v \<in> set cs \<Longrightarrow> searchsorted cs v < length cs \<and> cs ! searchsorted cs v = v"
  by (induction cs) (auto simp: searchsorted_def)

text \<open>The definitions to unfold when a concrete call of the encoder is evaluated.\<close>

lemmas tensor_defs = dict_to_tensors_def dict_to_tensors_with_def LabelBinarizer_fit_transform_def
  MultiLabelBinarizer_fit_transform_def np_unique_def unique_labels_def np_asarray_def
  rstrip_nul_def searchsorted_def label_binarize_def torch_tensor_def
  assert_and_return_def size0_def dict_keys_def dict_values_def

text \<open>
  Claim C10, with the trailing NUL characters accounted for. For every non-empty \<^verbatim>\<open>eng_to_rad\<close> dictionary \<^verbatim>\<open>dict_to_tensors\<close>
  returns; the English vocabulary it returns is the keys of the dictionary in ascending
  lexicographic order, each read without its trailing NUL characters, so that for a
  dictionary none of whose keys ends in a NUL character it holds exactly the keys and is
  strictly ascending; the radical vocabulary holds exactly the radicals that occur in some
  value list and is strictly ascending. The order is the lexicographic sort, not the
  first-seen order.
\<close>

theorem C10_vocabularies_sorted_up_to_nul:
  "eng_to_rad \<noteq> [] \<Longrightarrow>
   \<exists>eng_tensor rad_tensor eng_vocab rad_vocab.
     dict_to_tensors eng_to_rad = Inr (eng_tensor, rad_tensor, eng_vocab, rad_vocab) \<and>
     eng_vocab = map rstrip_nul (sorted_list_of_set (set (dict_keys eng_to_rad))) \<and>
     ((\<forall>k\<in>set (dict_keys eng_to_rad). \<not> ends_with_nul k) \<longrightarrow>
        set eng_vocab = set (dict_keys eng_to_rad) \<and> strictly_ascending eng_vocab) \<and>
     set rad_vocab = \<Union> (set ` set (dict_values eng_to_rad)) \<and>
     strictly_ascending rad_vocab"
proof -
  assume ne: "eng_to_rad \<noteq> []"
  have a: "unique_labels (dict_keys eng_to_rad) =
      map rstrip_nul (sorted_list_of_set (set (dict_keys eng_to_rad)))"
    by (rule unique_labels_general)
  have b: "set (unique_labels (dict_keys eng_to_rad)) = set (dict_keys eng_to_rad) \<and>
      strictly_ascending (unique_labels (dict_keys eng_to_rad))"
    if "\<forall>k\<in>set (dict_keys eng_to_rad). \<not> ends_with_nul k"
    using that by (simp add: unique_labels_no_nul strictly_ascending_iff)
  have c: "set (np_unique (concat (dict_values eng_to_rad))) = \<Union> (set ` set (dict_values eng_to_rad))"
    by (simp add: np_unique_props)
  have d: "strictly_ascending (np_unique (concat (dict_values eng_to_rad)))"
    by (simp add: strictly_ascending_iff np_unique_props)
  show ?thesis
    unfolding dict_to_tensors_eq [OF ne] using a b c d by blast
qed

text \<open>
  The theorem at a dictionary of three words given in descending order, none ending in
  NUL: both vocabularies come back ascending.
\<close>

theorem C10_vocabularies_sorted_up_to_nul_witness:
  "[(''tree'', [''wood'', ''branch'']), (''fire'', [''flame'']), (''ash'', [''wood'', ''flame''])] \<noteq> [] \<and>
   list_all (\<lambda>k. \<not> ends_with_nul k)
     (dict_keys [(''tree'', [''wood'', ''branch'']), (''fire'', [''flame'']), (''ash'', [''wood'', ''flame''])]) \<and>
   (\<exists>eng_tensor rad_tensor eng_vocab rad_vocab.
      dict_to_tensors
        [(''tree'', [''wood'', ''branch'']), (''fire'', [''flame'']), (''ash'', [''wood'', ''flame''])]
      = Inr (eng_tensor, rad_tensor, eng_vocab, rad_vocab) \<and>
      eng_vocab = [''ash'', ''fire'', ''tree''] \<and>
      set eng_vocab = {''tree'', ''fire'', ''ash''} \<and>
      strictly_ascending eng_vocab \<and>
      rad_vocab = [''branch'', ''flame'', ''wood''] \<and>
      strictly_ascending rad_vocab)"
proof -
  let ?d = "[(''tree'', [''wood'', ''branch'']), (''fire'', [''flame'']),
             (''ash'', [''wood'', ''flame''])]"
  have ne: "?d \<noteq> []" by simp
  have nonul: "\<forall>k\<in>set (dict_keys ?d). \<not> ends_with_nul k"
    by (simp add: dict_keys_def ends_with_nul_def)
  have ev: "dict_to_tensors ?d =
      Inr ([[0, 0, 1], [0, 1, 0], [1, 0, 0]], [[1, 0, 1], [0, 1, 0], [0, 1, 1]],
           [''ash'', ''fire'', ''tree''], [''branch'', ''flame'', ''wood''])"
    by (simp add: tensor_defs)
  from C10_vocabularies_sorted_up_to_nul [OF ne]
  obtain et rt ev' rv where r: "dict_to_tensors ?d = Inr (et, rt, ev', rv)"
    and imp: "(\<forall>k\<in>set (dict_keys ?d). \<not> ends_with_nul k) \<longrightarrow>
        set ev' = set (dict_keys ?d) \<and> strictly_ascending ev'"
    and rad: "strictly_ascending rv"
    by blast
  from imp nonul have eng: "set ev' = set (dict_keys ?d)" "strictly_ascending ev'" by blast+
  from r ev have vals: "ev' = [''ash'', ''fire'', ''tree'']" "rv = [''branch'', ''flame'', ''wood'']"
    by simp_all
  from eng(1) have "set ev' = {''tree'', ''fire'', ''ash''}" by (simp add: dict_keys_def)
  with r vals eng(2) rad nonul show ?thesis
    by (simp add: list_all_iff)
qed

text \<open>
  Claim C10 as stated, for every non-empty dictionary, fails at a key that ends in a NUL
  character: of the keys "a" with a NUL, "a" and "b" the vocabulary returned is "a", "a",
  "b", which is not the set of the keys and has a repeated entry.
\<close>

theorem C10_trailing_nul_counterexample:
  "\<exists>eng_tensor rad_tensor eng_vocab rad_vocab.
     dict_to_tensors [([CHR ''a'', CHR 0x00], [''r'']), (''a'', [''r'']), (''b'', [''s''])]
       = Inr (eng_tensor, rad_tensor, eng_vocab, rad_vocab) \<and>
     eng_vocab = [''a'', ''a'', ''b''] \<and>
     set eng_vocab \<noteq> set (dict_keys [([CHR ''a'', CHR 0x00], [''r'']), (''a'', [''r'']), (''b'', [''s''])]) \<and>
     \<not> distinct eng_vocab"
  by (simp add: tensor_defs) auto

text \<open>
  Claim C5. For every non-empty \<^verbatim>\<open>eng_to_rad\<close> dictionary, every word index \<open>i\<close> and every
  index \<open>j\<close> of the radical vocabulary, entry \<open>j\<close> of the \<open>i\<close>-th target vector returned by
  \<^verbatim>\<open>dict_to_tensors\<close> is 1.0 if the \<open>j\<close>-th radical of the vocabulary occurs in the radical
  list of word \<open>i\<close>, and 0.0 otherwise; there is one target vector for each word, as long
  as the radical vocabulary.
\<close>

theorem C5_target_multi_hot:
  "eng_to_rad \<noteq> [] \<Longrightarrow>
   \<exists>eng_tensor rad_tensor eng_vocab rad_vocab.
     dict_to_tensors eng_to_rad = Inr (eng_tensor, rad_tensor, eng_vocab, rad_vocab) \<and>
     length rad_tensor = length eng_to_rad \<and>
     (\<forall>i<length eng_to_rad.
        length (rad_tensor ! i) = length rad_vocab \<and>
        (\<forall>j<length rad_vocab.
           rad_tensor ! i ! j = (if rad_vocab ! j \<in> set (snd (eng_to_rad ! i)) then 1 else 0)))"
  by (simp add: dict_to_tensors_eq torch_tensor_def dict_values_def)

text \<open>The theorem at a dictionary of two words, read at three entries.\<close>

theorem C5_target_multi_hot_witness:
  "\<exists>eng_tensor rad_tensor eng_vocab rad_vocab.
     dict_to_tensors [(''tree'', [''wood'', ''branch'']), (''fire'', [''flame''])]
       = Inr (eng_tensor, rad_tensor, eng_vocab, rad_vocab) \<and>
     rad_vocab = [''branch'', ''flame'', ''wood''] \<and>
     rad_tensor ! 0 ! 2 = 1 \<and> rad_tensor ! 0 ! 1 = 0 \<and> rad_tensor ! 1 ! 1 = 1"
proof -
  have ev: "dict_to_tensors [(''tree'', [''wood'', ''branch'']), (''fire'', [''flame''])]
      = Inr ([[1], [0]], [[1, 0, 1], [0, 1, 0]], [''fire'', ''tree''], [''branch'', ''flame'', ''wood''])"
    by (simp add: tensor_defs)
  from C5_target_multi_hot [of "[(''tree'', [''wood'', ''branch'']), (''fire'', [''flame''])]"]
  obtain eng_tensor rad_tensor eng_vocab rad_vocab where
    r: "dict_to_tensors [(''tree'', [''wood'', ''branch'']), (''fire'', [''flame''])]
       = Inr (eng_tensor, rad_tensor, eng_vocab, rad_vocab)"
    and all: "\<forall>i<length [(''tree'', [''wood'', ''branch'']), (''fire'', [''flame''])].
        length (rad_tensor ! i) = length rad_vocab \<and>
        (\<forall>j<length rad_vocab.
           rad_tensor ! i ! j =
             (if rad_vocab ! j \<in> set (snd ([(''tree'', [''wood'', ''branch'']), (''fire'', [''flame''])] ! i))
              then 1 else 0))"
    by blast
  from r ev have v: "rad_vocab = [''branch'', ''flame'', ''wood'']" by simp
  from all have "\<forall>j<length rad_vocab. rad_tensor ! 0 ! j =
      (if rad_vocab ! j \<in> set (snd ([(''tree'', [''wood'', ''branch'']), (''fire'', [''flame''])] ! 0))
       then 1 else 0)"
    by simp
  then have a: "rad_tensor ! 0 ! 2 = 1" and b: "rad_tensor ! 0 ! 1 = 0"
    unfolding v by simp_all
  from all have "\<forall>j<length rad_vocab. rad_tensor ! 1 ! j =
      (if rad_vocab ! j \<in> set (snd ([(''tree'', [''wood'', ''branch'']), (''fire'', [''flame''])] ! 1))
       then 1 else 0)"
    by simp
  then have c: "rad_tensor ! 1 ! 1 = 1"
    unfolding v by simp
  from r v a b c show ?thesis by blast
qed




text \<open>
  Claim C4, at a dictionary of two words. The claim asks every input vector to be as long
  as the English vocabulary, with exactly one entry 1.0. The encoder treats two classes as
  a binary target and returns a single column: the vocabulary has two words, each input
  vector has one entry, and the vector of the first word has no entry 1.0.
\<close>

theorem C4_two_words_not_one_hot:
  "\<exists>eng_tensor rad_tensor eng_vocab rad_vocab.
     dict_to_tensors [(''fire'', [''flame'']), (''tree'', [''wood''])]
       = Inr (eng_tensor, rad_tensor, eng_vocab, rad_vocab) \<and>
     eng_vocab = [''fire'', ''tree''] \<and>
     eng_tensor = [[0], [1]] \<and>
     length (eng_tensor ! 0) \<noteq> length eng_vocab \<and>
     1 \<notin> set (eng_tensor ! 0)"
  by (simp add: tensor_defs)

text \<open>
  Claim C6, at a dictionary of two words. The claim asks the single nonzero entry of the
  input vector of a word to stand at the index of that word in the English vocabulary.
  The only nonzero entry of the vector of "sun" (row 0) is at index 0, where the
  vocabulary has "moon"; the vector of "moon" (row 1) has no nonzero entry.
\<close>

theorem C6_two_words_no_round_trip:
  "\<exists>eng_tensor rad_tensor eng_vocab rad_vocab.
     dict_to_tensors [(''sun'', [''day'']), (''moon'', [''month''])]
       = Inr (eng_tensor, rad_tensor, eng_vocab, rad_vocab) \<and>
     eng_vocab = [''moon'', ''sun''] \<and>
     eng_tensor ! 0 = [1] \<and>
     eng_vocab ! 0 \<noteq> ''sun'' \<and>
     eng_tensor ! 1 = [0]"
  by (simp add: tensor_defs)

text \<open>
  From three words on, none ending in a NUL character, the encoder returns the full
  indicator matrix, and the input vector of every word is one-hot at the index of the word
  in the vocabulary.
\<close>

lemma one_hot_from_three_words:
  assumes "distinct (dict_keys eng_to_rad)" and "3 \<le> length eng_to_rad"
    and "\<forall>k\<in>set (dict_keys eng_to_rad). \<not> ends_with_nul k"
    and "i < length eng_to_rad"
  shows "\<exists>eng_tensor rad_tensor eng_vocab rad_vocab.
     dict_to_tensors eng_to_rad = Inr (eng_tensor, rad_tensor, eng_vocab, rad_vocab) \<and>
     length (eng_tensor ! i) = length eng_vocab \<and>
     (\<forall>j<length eng_vocab.
        eng_tensor ! i ! j = (if eng_vocab ! j = fst (eng_to_rad ! i) then 1 else 0)) \<and>
     (\<exists>!j. j < length eng_vocab \<and> eng_tensor ! i ! j = 1)"
proof -
  let ?keys = "dict_keys eng_to_rad"
  let ?cs = "unique_labels ?keys"
  let ?key = "fst (eng_to_rad ! i)"
  let ?idx = "searchsorted ?cs ?key"
  have ne: "eng_to_rad \<noteq> []" using assms(2) by auto
  have cs: "?cs = sort (remdups ?keys)"
    using assms(3) by (rule unique_labels_no_nul)
  have dist: "distinct ?cs" and srt: "sorted ?cs" by (simp_all add: cs)
  have len: "length ?cs = length eng_to_rad"
    unfolding cs using assms(1) by (simp add: dict_keys_def distinct_remdups_id)
  have "label_binarize ?keys ?cs =
      map (\<lambda>label. map (\<lambda>j. if j = searchsorted ?cs label then 1 else 0) [0..<length ?cs]) ?keys"
    using assms(2) len by (simp add: label_binarize_def Let_def np_asarray_no_nul [OF assms(3)])
  then have row: "torch_tensor (label_binarize ?keys ?cs) ! i =
      map (\<lambda>j. if j = ?idx then 1 else 0) [0..<length ?cs]"
    using assms(4) by (simp add: torch_tensor_def dict_keys_def comp_def if_distrib)
  have "?key \<in> set ?cs"
    unfolding cs using assms(4) by (simp add: dict_keys_def)
  with srt have idx: "?idx < length ?cs" "?cs ! ?idx = ?key"
    using searchsorted_nth by blast+
  have at: "(?cs ! j = ?key) = (j = ?idx)" if "j < length ?cs" for j
    using that idx dist by (metis nth_eq_iff_index_eq)
  have entries: "\<forall>j<length ?cs. torch_tensor (label_binarize ?keys ?cs) ! i ! j =
      (if ?cs ! j = ?key then 1 else 0)"
    by (simp add: row at)
  have one: "\<exists>!j. j < length ?cs \<and> torch_tensor (label_binarize ?keys ?cs) ! i ! j = 1"
  proof (rule ex1I [of _ ?idx])
    show "?idx < length ?cs \<and> torch_tensor (label_binarize ?keys ?cs) ! i ! ?idx = 1"
      using idx by (simp add: row)
  next
    fix j assume "j < length ?cs \<and> torch_tensor (label_binarize ?keys ?cs) ! i ! j = 1"
    then have "j < length ?cs" and "torch_tensor (label_binarize ?keys ?cs) ! i ! j = 1"
      by blast+
    then show "j = ?idx" by (simp add: row split: if_splits)
  qed
  have lenrow: "length (torch_tensor (label_binarize ?keys ?cs) ! i) = length ?cs"
    by (simp add: row)
  show ?thesis
    unfolding dict_to_tensors_eq [OF ne] using lenrow entries one by blast
qed

end
